theory Spec2Isabelle
  imports Complex_Main
begin

section \<open>Time values and text formatting used by the poller\<close>

text \<open>
  A naive \<^verbatim>\<open>datetime.datetime\<close> is the number of microseconds since
  0001-01-01T00:00:00, and a \<^verbatim>\<open>datetime.timedelta\<close> is a number of microseconds.
  Python stores the calendar fields and converts through the proleptic Gregorian
  ordinal for arithmetic; both views carry the same information, and the fields are
  recovered below by the algorithm of the standard library (\<^verbatim>\<open>_ord2ymd\<close>).
  Arithmetic is exact integer arithmetic: the range check of the library (years 1 to
  9999) is left out. \<^verbatim>\<open>total_seconds()\<close> is the exact quotient by \<open>10^6\<close>, a rational
  number where Python rounds to a double.
\<close>

type_synonym datetime = int
type_synonym timedelta = int

definition MINUTES_IN_HOUR :: int where
  "MINUTES_IN_HOUR = 60"

definition US_PER_SECOND :: int where
  "US_PER_SECOND = 1000000"

definition US_PER_DAY :: int where
  "US_PER_DAY = 86400000000"

definition timedelta_minutes :: "int \<Rightarrow> timedelta" where
  "timedelta_minutes m = m * 60 * US_PER_SECOND"

definition timedelta_seconds :: "int \<Rightarrow> timedelta" where
  "timedelta_seconds s = s * US_PER_SECOND"

definition total_seconds :: "timedelta \<Rightarrow> rat" where
  "total_seconds td = of_int td / of_int US_PER_SECOND"

definition DAYS_IN_MONTH :: "int list" where
  "DAYS_IN_MONTH = [-1, 31, 28, 31, 30, 31, 30, 31, 31, 30, 31, 30, 31]"

definition DAYS_BEFORE_MONTH :: "int list" where
  "DAYS_BEFORE_MONTH = [-1, 0, 31, 59, 90, 120, 151, 181, 212, 243, 273, 304, 334]"

definition is_leap :: "int \<Rightarrow> bool" where
  "is_leap year \<longleftrightarrow> year mod 4 = 0 \<and> (year mod 100 \<noteq> 0 \<or> year mod 400 = 0)"

definition days_before_year :: "int \<Rightarrow> int" where
  "days_before_year year =
     (let y = year - 1 in y * 365 + y div 4 - y div 100 + y div 400)"

definition days_before_month :: "int \<Rightarrow> int \<Rightarrow> int" where
  "days_before_month year month =
     DAYS_BEFORE_MONTH ! nat month + (if month > 2 \<and> is_leap year then 1 else 0)"

definition ymd2ord :: "int \<Rightarrow> int \<Rightarrow> int \<Rightarrow> int" where
  "ymd2ord year month day = days_before_year year + days_before_month year month + day"

text \<open>The constructor \<^verbatim>\<open>datetime(year, month, day, hour, minute, second, microsecond)\<close>.\<close>

definition datetime_of :: "int \<Rightarrow> int \<Rightarrow> int \<Rightarrow> int \<Rightarrow> int \<Rightarrow> int \<Rightarrow> int \<Rightarrow> datetime" where
  "datetime_of year month day hour minute second microsecond =
     (((ymd2ord year month day - 1) * 24 + hour) * 60 + minute) * 60 * US_PER_SECOND
       + second * US_PER_SECOND + microsecond"

text \<open>The calendar date of an ordinal, as \<^verbatim>\<open>_ord2ymd\<close> computes it.\<close>

definition ord2ymd :: "int \<Rightarrow> int \<times> int \<times> int" where
  "ord2ymd ordinal =
     (let n0 = ordinal - 1;
          n400 = n0 div 146097; na = n0 mod 146097;
          n100 = na div 36524; nb = na mod 36524;
          n4 = nb div 1461; nc = nb mod 1461;
          n1 = nc div 365; n = nc mod 365;
          year = n400 * 400 + 1 + n100 * 100 + n4 * 4 + n1
      in if n1 = 4 \<or> n100 = 4 then (year - 1, 12, 31)
         else
           let leapyear = (n1 = 3 \<and> (n4 \<noteq> 24 \<or> n100 = 3));
               month = (n + 50) div 32;
               preceding = DAYS_BEFORE_MONTH ! nat month
                           + (if month > 2 \<and> leapyear then 1 else 0)
           in if preceding > n
              then let month' = month - 1;
                       preceding' = preceding - (DAYS_IN_MONTH ! nat month'
                                     + (if month' = 2 \<and> leapyear then 1 else 0))
                   in (year, month', n - preceding' + 1)
              else (year, month, n - preceding + 1))"

definition dt_year :: "datetime \<Rightarrow> int" where
  "dt_year dt = fst (ord2ymd (dt div US_PER_DAY + 1))"

definition dt_month :: "datetime \<Rightarrow> int" where
  "dt_month dt = fst (snd (ord2ymd (dt div US_PER_DAY + 1)))"

definition dt_day :: "datetime \<Rightarrow> int" where
  "dt_day dt = snd (snd (ord2ymd (dt div US_PER_DAY + 1)))"

definition dt_hour :: "datetime \<Rightarrow> int" where
  "dt_hour dt = (dt mod US_PER_DAY) div (3600 * US_PER_SECOND)"

definition dt_minute :: "datetime \<Rightarrow> int" where
  "dt_minute dt = (dt mod (3600 * US_PER_SECOND)) div (60 * US_PER_SECOND)"

definition dt_second :: "datetime \<Rightarrow> int" where
  "dt_second dt = (dt mod (60 * US_PER_SECOND)) div US_PER_SECOND"

definition dt_microsecond :: "datetime \<Rightarrow> int" where
  "dt_microsecond dt = dt mod US_PER_SECOND"

subsection \<open>Decimal rendering\<close>

fun str_nat :: "nat \<Rightarrow> string" where
  "str_nat n =
     (if n < 10 then [''0123456789'' ! n]
      else str_nat (n div 10) @ [''0123456789'' ! (n mod 10)])"

declare str_nat.simps [simp del]

definition zfill :: "nat \<Rightarrow> string \<Rightarrow> string" where
  "zfill w s = replicate (w - length s) (CHR ''0'') @ s"

text \<open>The format specification \<^verbatim>\<open>{:0wd}\<close>: zero padded to a minimal width that counts the sign.\<close>

definition format_0d :: "nat \<Rightarrow> int \<Rightarrow> string" where
  "format_0d w i =
     (if i < 0 then CHR ''-'' # zfill (w - 1) (str_nat (nat (- i)))
      else zfill w (str_nat (nat i)))"

text \<open>\<^verbatim>\<open>strftime('%Y-%m-%d')\<close> and \<^verbatim>\<open>isoformat(timespec='milliseconds')\<close>.\<close>

definition strftime_Ymd :: "datetime \<Rightarrow> string" where
  "strftime_Ymd dt =
     format_0d 4 (dt_year dt) @ ''-'' @ format_0d 2 (dt_month dt) @ ''-''
       @ format_0d 2 (dt_day dt)"

definition isoformat_milliseconds :: "datetime \<Rightarrow> string" where
  "isoformat_milliseconds dt =
     format_0d 4 (dt_year dt) @ ''-'' @ format_0d 2 (dt_month dt) @ ''-''
       @ format_0d 2 (dt_day dt) @ ''T'' @ format_0d 2 (dt_hour dt) @ '':''
       @ format_0d 2 (dt_minute dt) @ '':'' @ format_0d 2 (dt_second dt) @ ''.''
       @ format_0d 3 (dt_microsecond dt div 1000)"

subsection \<open>Serializing: timestamps\<close>

definition minutes_to_hours_string :: "int \<Rightarrow> string" where
  "minutes_to_hours_string minutes =
     (let sign = (if minutes < 0 then ''-'' else ''+'');
          hours = \<bar>minutes\<bar> div MINUTES_IN_HOUR;
          minutes_left = \<bar>minutes\<bar> mod MINUTES_IN_HOUR
      in sign @ format_0d 2 hours @ '':'' @ format_0d 2 minutes_left)"

definition combine_into_timestamp :: "datetime \<Rightarrow> int \<Rightarrow> string" where
  "combine_into_timestamp naive_datetime utc_offset_minutes =
     (let naive_string = isoformat_milliseconds naive_datetime
      in naive_string @ minutes_to_hours_string utc_offset_minutes)"

text \<open>\<^verbatim>\<open>_create_timestamp\<close> reads the clock; the reading \<open>utcnow\<close> is an argument here.\<close>

definition create_timestamp :: "datetime \<Rightarrow> string" where
  "create_timestamp utcnow = combine_into_timestamp utcnow 0"

section \<open>Data model\<close>

text \<open>
  Exceptions that the code can raise through the library calls it makes: a missing
  dictionary key, a cache of capacity below one, and a failed resolver refresh.
\<close>

datatype error = KeyError | ValueError | RefreshError

definition DEPARTURE_STATES :: "int \<rightharpoonup> string" where
  "DEPARTURE_STATES = map_of
     [(0, ''NOTEXPECTED''),
      (1, ''NOTCALLED''),
      (2, ''EXPECTED''),
      (3, ''CANCELLED''),
      (4, ''INHIBITED''),
      (6, ''ATSTOP''),
      (7, ''BOARDING''),
      (8, ''BOARDINGCLOSED''),
      (9, ''DEPARTED''),
      (10, ''PASSED''),
      (11, ''MISSED''),
      (12, ''REPLACED''),
      (13, ''ASSUMEDDEPARTED'')]"

text \<open>One row of the polling query, with the columns the query names.\<close>

record row =
  DepartureId :: string
  DatedVehicleJourneyId :: string
  JourneyPatternPointGid :: string
  TimetabledEarliestDateTime :: datetime
  ObservedDateTime :: "datetime option"
  TargetDateTime :: datetime
  JourneyPatternSequenceNumber :: int
  State :: int
  LastModifiedUTCDateTime :: datetime

text \<open>
  What the three mappers return. The mappers live outside this module; the fields are the
  ones the poller reads.
\<close>

record stop_info =
  JoreStopId :: string

record journey_info =
  JoreLineId :: string
  JoreDirection :: string
  LocalizedStartTime :: datetime
  OperatingDayDate :: datetime
  OffsetSeconds :: int

record utc_offset_info =
  UTCOffsetMinutes :: int

record matched =
  source :: row
  stop :: stop_info
  journey :: journey_info
  utc_offset :: utc_offset_info

section \<open>Filtering\<close>

subsection \<open>The least-recently-used cache\<close>

text \<open>
  \<^verbatim>\<open>cachetools.LRUCache\<close>, every entry of size one, as an association list with the most
  recently used entry first. Reading a present key makes it the most recent one. Writing
  raises when the capacity is below one; a present key is overwritten; a new key first
  removes least recently used entries until there is room.
\<close>

type_synonym ('k, 'v) lru_cache = "('k \<times> 'v) list"

definition lru_get :: "'k \<Rightarrow> ('k, 'v) lru_cache \<Rightarrow> 'v option \<times> ('k, 'v) lru_cache" where
  "lru_get key cache =
     (case map_of cache key of
        None \<Rightarrow> (None, cache)
      | Some v \<Rightarrow> (Some v, (key, v) # filter (\<lambda>kv. fst kv \<noteq> key) cache))"

definition lru_set :: "int \<Rightarrow> 'k \<Rightarrow> 'v \<Rightarrow> ('k, 'v) lru_cache \<Rightarrow> error + ('k, 'v) lru_cache" where
  "lru_set maxsize key val cache =
     (if 1 > maxsize then Inl ValueError
      else if map_of cache key \<noteq> None
      then Inr ((key, val) # filter (\<lambda>kv. fst kv \<noteq> key) cache)
      else Inr ((key, val) # take (nat (maxsize - 1)) cache))"

subsection \<open>The generic filter\<close>

definition is_included_and_cached ::
  "int \<Rightarrow> ('m \<Rightarrow> 'k \<times> 'v) \<Rightarrow> ('v \<Rightarrow> 'v option \<Rightarrow> error + bool) \<Rightarrow> 'm
     \<Rightarrow> ('k, 'v) lru_cache \<Rightarrow> (error + bool) \<times> ('k, 'v) lru_cache" where
  "is_included_and_cached cache_size extract_cache_key_value is_included m cache =
     (let key = fst (extract_cache_key_value m);
          current = snd (extract_cache_key_value m);
          cached = fst (lru_get key cache);
          cache1 = snd (lru_get key cache)
      in case is_included current cached of
           Inl e \<Rightarrow> (Inl e, cache1)
         | Inr is_kept \<Rightarrow>
             if is_kept
             then (case lru_set cache_size key current cache1 of
                     Inl e \<Rightarrow> (Inl e, cache1)
                   | Inr cache2 \<Rightarrow> (Inr True, cache2))
             else (Inr False, cache1))"

text \<open>
  \<^verbatim>\<open>filter_\<close> (here \<open>filter_matches\<close>): the records are tested in order; an exception ends the call, and the cache
  keeps what the records before it wrote.
\<close>

fun filter_matches ::
  "int \<Rightarrow> ('m \<Rightarrow> 'k \<times> 'v) \<Rightarrow> ('v \<Rightarrow> 'v option \<Rightarrow> error + bool) \<Rightarrow> 'm list
     \<Rightarrow> ('k, 'v) lru_cache \<Rightarrow> (error + 'm list) \<times> ('k, 'v) lru_cache" where
  "filter_matches cache_size ex inc [] cache = (Inr [], cache)"
| "filter_matches cache_size ex inc (m # ms) cache =
     (case is_included_and_cached cache_size ex inc m cache of
        (Inl e, cache') \<Rightarrow> (Inl e, cache')
      | (Inr is_kept, cache') \<Rightarrow>
          (case filter_matches cache_size ex inc ms cache' of
             (Inl e, cache'') \<Rightarrow> (Inl e, cache'')
           | (Inr kept, cache'') \<Rightarrow> (Inr (if is_kept then m # kept else kept), cache'')))"

definition startswith :: "string \<Rightarrow> string \<Rightarrow> bool" where
  "startswith s p \<longleftrightarrow> take (length p) s = p"

definition is_train :: "string \<Rightarrow> bool" where
  "is_train jore_line_id \<longleftrightarrow> startswith jore_line_id ''300''"

subsection \<open>Events\<close>

text \<open>The dictionary that \<^verbatim>\<open>_extract_departure_id_and_event\<close> builds, key by key.\<close>

record event_value =
  ev_State :: int
  ev_JoreLineId :: string
  ev_StartUTCDateTime :: datetime
  ev_LastModifiedUTCDateTime :: datetime
  ev_TimetabledEarliestDateTime :: datetime
  ev_LocalizedStartTime :: datetime
  ev_JourneyPatternSequenceNumber :: int

definition check_event_for_inclusion ::
  "rat \<Rightarrow> event_value \<Rightarrow> event_value option \<Rightarrow> error + bool" where
  "check_event_for_inclusion pre_journey_threshold_in_s current cached =
     (let is_given_early =
            (total_seconds (ev_StartUTCDateTime current - ev_LastModifiedUTCDateTime current)
               > pre_journey_threshold_in_s);
          is_first_stop = (ev_JourneyPatternSequenceNumber current = 1);
          is_train_line = is_train (ev_JoreLineId current);
          state = ev_State current
      in if \<not> (is_first_stop \<and> is_given_early) \<and> \<not> is_train_line
         then (case cached of
                 None \<Rightarrow> Inr True
               | Some c \<Rightarrow> Inr (state \<noteq> ev_State c))
         else Inr False)"

definition extract_departure_id_and_event :: "matched \<Rightarrow> string \<times> event_value" where
  "extract_departure_id_and_event m =
     (DepartureId (source m),
      \<lparr> ev_State = State (source m),
        ev_JoreLineId = JoreLineId (journey m),
        ev_StartUTCDateTime =
          LocalizedStartTime (journey m) - timedelta_minutes (UTCOffsetMinutes (utc_offset m)),
        ev_LastModifiedUTCDateTime = LastModifiedUTCDateTime (source m),
        ev_TimetabledEarliestDateTime = TimetabledEarliestDateTime (source m),
        ev_LocalizedStartTime = LocalizedStartTime (journey m),
        ev_JourneyPatternSequenceNumber = JourneyPatternSequenceNumber (source m) \<rparr>)"

subsection \<open>Predictions\<close>

record prediction_value =
  pv_TimetabledEarliestDateTime :: datetime
  pv_TargetDateTime :: datetime
  pv_LastModifiedUTCDateTime :: datetime
  pv_State :: int
  pv_StartUTCDateTime :: datetime
  pv_JoreLineId :: string

definition check_prediction_for_inclusion ::
  "rat \<Rightarrow> rat \<Rightarrow> prediction_value \<Rightarrow> prediction_value option \<Rightarrow> error + bool" where
  "check_prediction_for_inclusion pre_journey_threshold_in_s change_threshold_in_s current cached =
     (let is_given_early =
            (total_seconds (pv_StartUTCDateTime current - pv_LastModifiedUTCDateTime current)
               > pre_journey_threshold_in_s);
          is_predicted_early =
            (pv_TargetDateTime current < pv_TimetabledEarliestDateTime current);
          is_train_line = is_train (pv_JoreLineId current)
      in case DEPARTURE_STATES (pv_State current) of
           None \<Rightarrow> Inl KeyError
         | Some name \<Rightarrow>
             let is_cancelled = (name = ''CANCELLED'')
             in if \<not> is_train_line \<and> \<not> (is_given_early \<and> is_predicted_early)
                     \<and> \<not> is_cancelled
                then (case cached of
                        None \<Rightarrow> Inr True
                      | Some c \<Rightarrow>
                          Inr (\<bar>total_seconds (pv_TargetDateTime current - pv_TargetDateTime c)\<bar>
                                 \<ge> change_threshold_in_s))
                else Inr False)"

definition extract_departure_id_and_prediction :: "matched \<Rightarrow> string \<times> prediction_value" where
  "extract_departure_id_and_prediction m =
     (let src = source m;
          d = \<lparr> pv_TimetabledEarliestDateTime = TimetabledEarliestDateTime src,
                pv_TargetDateTime = TargetDateTime src,
                pv_LastModifiedUTCDateTime = LastModifiedUTCDateTime src,
                pv_State = State src,
                pv_StartUTCDateTime = 0,
                pv_JoreLineId = [] \<rparr>;
          d1 = (case ObservedDateTime src of
                  None \<Rightarrow> d
                | Some observed \<Rightarrow> d\<lparr> pv_TargetDateTime := observed \<rparr>);
          d2 = d1\<lparr> pv_StartUTCDateTime :=
                     LocalizedStartTime (journey m)
                       - timedelta_minutes (UTCOffsetMinutes (utc_offset m)) \<rparr>;
          d3 = d2\<lparr> pv_JoreLineId := JoreLineId (journey m) \<rparr>
      in (DepartureId src, d3))"

section \<open>Serializing\<close>

text \<open>
  The message handed to \<^verbatim>\<open>json.dumps\<close> is a value of the type \<open>json\<close>; the library
  function that renders it as text, \<open>json_dumps\<close>, is an argument of the serializers.
\<close>

datatype json = JStr string | JInt int | JList "json list" | JDict "(string \<times> json) list"

text \<open>
  \<^verbatim>\<open>by_key[key].append(value)\<close> on a \<^verbatim>\<open>defaultdict(list)\<close>: the dictionary is an
  association list in the order in which the keys were first inserted.
\<close>

fun append_by_key :: "'k \<Rightarrow> 'v \<Rightarrow> ('k \<times> 'v list) list \<Rightarrow> ('k \<times> 'v list) list" where
  "append_by_key key val [] = [(key, [val])]"
| "append_by_key key val ((k, vs) # by_key) =
     (if k = key then (k, vs @ [val]) # by_key
      else (k, vs) # append_by_key key val by_key)"

fun arrange_loop ::
  "('m \<Rightarrow> error + 'k \<times> 'v) \<Rightarrow> 'm list \<Rightarrow> ('k \<times> 'v list) list
     \<Rightarrow> error + ('k \<times> 'v list) list" where
  "arrange_loop arrange [] by_key = Inr by_key"
| "arrange_loop arrange (m # matches) by_key =
     (case arrange m of
        Inl e \<Rightarrow> Inl e
      | Inr (key, val) \<Rightarrow> arrange_loop arrange matches (append_by_key key val by_key))"

definition arrange_by_key ::
  "('m \<Rightarrow> error + 'k \<times> 'v) \<Rightarrow> 'm list \<Rightarrow> error + ('k \<times> 'v list) list" where
  "arrange_by_key arrange matches = arrange_loop arrange matches []"

definition arrange_prediction :: "matched \<Rightarrow> error + string \<times> json" where
  "arrange_prediction m =
     (let src = source m;
          stop_id = JoreStopId (stop m);
          jrn = journey m;
          utc_off = UTCOffsetMinutes (utc_offset m);
          start_naive = LocalizedStartTime jrn;
          scheduled_naive = TimetabledEarliestDateTime src;
          predicted_naive = TargetDateTime src;
          operating_day = strftime_Ymd (OperatingDayDate jrn);
          seconds_since = OffsetSeconds jrn;
          start_time = combine_into_timestamp start_naive utc_off;
          scheduled_time = combine_into_timestamp scheduled_naive utc_off;
          predicted_time = combine_into_timestamp predicted_naive utc_off;
          prediction = JDict
            [(''joreStopId'', JStr stop_id),
             (''joreLineId'', JStr (JoreLineId jrn)),
             (''joreLineDirection'', JStr (JoreDirection jrn)),
             (''journeyStartTime'', JStr start_time),
             (''stopOrderInJourney'', JInt (JourneyPatternSequenceNumber src)),
             (''operatingDay'', JStr operating_day),
             (''journeyStartInSecondsIntoOperatingDay'', JInt seconds_since),
             (''scheduledDepartureTime'', JStr scheduled_time),
             (''predictedDepartureTime'', JStr predicted_time)]
      in Inr (stop_id, prediction))"

definition arrange_event :: "matched \<Rightarrow> error + string \<times> json" where
  "arrange_event m =
     (let src = source m;
          stop_id = JoreStopId (stop m);
          jrn = journey m;
          utc_off = UTCOffsetMinutes (utc_offset m);
          start_naive = LocalizedStartTime jrn;
          scheduled_naive = TimetabledEarliestDateTime src
      in case DEPARTURE_STATES (State src) of
           None \<Rightarrow> Inl KeyError
         | Some state \<Rightarrow>
             let operating_day = strftime_Ymd (OperatingDayDate jrn);
                 seconds_since = OffsetSeconds jrn;
                 start_time = combine_into_timestamp start_naive utc_off;
                 scheduled_time = combine_into_timestamp scheduled_naive utc_off;
                 event = JDict
                   [(''joreStopId'', JStr stop_id),
                    (''joreLineId'', JStr (JoreLineId jrn)),
                    (''joreLineDirection'', JStr (JoreDirection jrn)),
                    (''journeyStartTime'', JStr start_time),
                    (''stopOrderInJourney'', JInt (JourneyPatternSequenceNumber src)),
                    (''operatingDay'', JStr operating_day),
                    (''journeyStartInSecondsIntoOperatingDay'', JInt seconds_since),
                    (''scheduledDepartureTime'', JStr scheduled_time),
                    (''event'', JStr state)]
             in Inr (stop_id, event))"

definition event_serializer ::
  "(json \<Rightarrow> string) \<Rightarrow> string \<Rightarrow> matched list \<Rightarrow> string \<Rightarrow> error + (string \<times> string) list" where
  "event_serializer json_dumps mqtt_topic_mid matches message_timestamp =
     (case arrange_by_key arrange_event matches of
        Inl e \<Rightarrow> Inl e
      | Inr events_by_stop \<Rightarrow>
          Inr (map (\<lambda>(stop_id, events).
                      (mqtt_topic_mid @ stop_id,
                       json_dumps (JDict [(''messageTimestamp'', JStr message_timestamp),
                                          (''events'', JList events)])))
                 events_by_stop))"

definition prediction_serializer ::
  "(json \<Rightarrow> string) \<Rightarrow> string \<Rightarrow> matched list \<Rightarrow> string \<Rightarrow> error + (string \<times> string) list" where
  "prediction_serializer json_dumps mqtt_topic_mid matches message_timestamp =
     (case arrange_by_key arrange_prediction matches of
        Inl e \<Rightarrow> Inl e
      | Inr predictions_by_stop \<Rightarrow>
          Inr (map (\<lambda>(stop_id, predictions).
                      (mqtt_topic_mid @ stop_id,
                       json_dumps (JDict [(''messageTimestamp'', JStr message_timestamp),
                                          (''predictions'', JList predictions)])))
                 predictions_by_stop))"

section \<open>Filtering, serializing, forwarding\<close>

text \<open>
  \<^verbatim>\<open>process\<close> filters, serializes and puts every pair on the queue. Its value here is the
  list of pairs it puts, in order, or the exception that ended it, with the cache as the
  filter left it.
\<close>

definition process ::
  "('m list \<Rightarrow> 'c \<Rightarrow> (error + 'm list) \<times> 'c) \<Rightarrow> ('m list \<Rightarrow> string \<Rightarrow> error + (string \<times> string) list)
     \<Rightarrow> 'm list \<Rightarrow> string \<Rightarrow> 'c \<Rightarrow> (error + (string \<times> string) list) \<times> 'c" where
  "process filter_fn serialize matches message_timestamp cache =
     (case filter_fn matches cache of
        (Inl e, cache') \<Rightarrow> (Inl e, cache')
      | (Inr filtered, cache') \<Rightarrow> (serialize filtered message_timestamp, cache'))"

text \<open>
  \<^verbatim>\<open>strftime('%Y%m%d %H:%M:%S.') + strftime('%f')[:3]\<close>: the microseconds are cut to
  milliseconds.
\<close>

definition format_datetime_for_sql :: "datetime \<Rightarrow> string" where
  "format_datetime_for_sql dt =
     format_0d 4 (dt_year dt) @ format_0d 2 (dt_month dt) @ format_0d 2 (dt_day dt) @ '' ''
       @ format_0d 2 (dt_hour dt) @ '':'' @ format_0d 2 (dt_minute dt) @ '':''
       @ format_0d 2 (dt_second dt) @ ''.'' @ take 3 (format_0d 6 (dt_microsecond dt))"

section \<open>The poller\<close>

subsection \<open>Matching\<close>

text \<open>The three mappers, each a lookup table that its \<^verbatim>\<open>update\<close> replaces.\<close>

record mappers =
  stop_mapper :: "string \<rightharpoonup> stop_info"
  journey_mapper :: "string \<rightharpoonup> journey_info"
  utc_offset_mapper :: "string \<rightharpoonup> utc_offset_info"

definition get_matches :: "mappers \<Rightarrow> row \<Rightarrow> matched option" where
  "get_matches ms r =
     (let jpp = JourneyPatternPointGid r;
          stop_found = stop_mapper ms jpp;
          dvj = DatedVehicleJourneyId r;
          journey_found = journey_mapper ms dvj;
          utc_offset_found = utc_offset_mapper ms dvj
      in case (stop_found, journey_found, utc_offset_found) of
           (Some s, Some j, Some u) \<Rightarrow>
             Some \<lparr> source = r, stop = s, journey = j, utc_offset = u \<rparr>
         | _ \<Rightarrow> None)"

text \<open>
  \<^verbatim>\<open>any(future.result() for future in done)\<close> over the results of the three updates, in
  the order in which the set \<open>done\<close> is read: the first true result ends the search, and
  the result of a failed update raises.
\<close>

fun update_mappers :: "(error + bool) list \<Rightarrow> error + bool" where
  "update_mappers [] = Inr False"
| "update_mappers (Inl e # results) = Inl e"
| "update_mappers (Inr changed # results) =
     (if changed then Inr True else update_mappers results)"

text \<open>
  The refreshes belong to the mappers, outside this module. \<open>update n ms\<close> is what the
  \<open>n\<close>-th round of updates does to the tables \<open>ms\<close>: the new tables and the results of
  the three futures. The loop has no bound on its rounds, so the matcher is a partial
  function: \<open>None\<close> is a loop that never returns. It returns the matches, the tables and
  the number of rounds run so far.
\<close>

partial_function (option) get_all_matches ::
  "(nat \<Rightarrow> mappers \<Rightarrow> mappers \<times> (error + bool) list) \<Rightarrow> nat \<Rightarrow> mappers \<Rightarrow> row list
     \<Rightarrow> ((error + matched list) \<times> mappers \<times> nat) option" where
  "get_all_matches update n ms rows =
     (let matches = map (get_matches ms) rows;
          ms' = fst (update n ms);
          updated = update_mappers (snd (update n ms))
      in case updated of
           Inl e \<Rightarrow> Some (Inl e, ms', Suc n)
         | Inr changed \<Rightarrow>
             if changed then get_all_matches update (Suc n) ms' rows
             else Some (Inr (List.map_filter id matches), ms', Suc n))"

subsection \<open>Polling\<close>

record config =
  poll_interval :: timedelta
  pre_journey_prediction_threshold_in_seconds :: rat
  prediction_change_threshold_in_seconds :: rat
  prediction_cache_size :: int
  event_cache_size :: int
  prediction_mqtt_topic_mid :: string
  event_mqtt_topic_mid :: string

text \<open>
  What the poller does not own: the rows the database returns in a cycle for the
  timestamp written into the query, the clock reading of a cycle, the rounds of mapper
  updates, and the JSON renderer. Waiting for the MQTT connection is not modelled.
\<close>

record environment =
  query_from_roi :: "nat \<Rightarrow> string \<Rightarrow> row list"
  utcnow :: "nat \<Rightarrow> datetime"
  mapper_update :: "nat \<Rightarrow> mappers \<Rightarrow> mappers \<times> (error + bool) list"
  json_dumps :: "json \<Rightarrow> string"

text \<open>
  The state that lives across cycles: the timestamp \<^verbatim>\<open>modified_utc_dt\<close>, the tables of the
  mappers with the count of update rounds, and the caches of the two filters.
\<close>

record poller_state =
  modified_utc_dt :: datetime
  tables :: mappers
  rounds :: nat
  event_cache :: "(string, event_value) lru_cache"
  prediction_cache :: "(string, prediction_value) lru_cache"

definition event_processor ::
  "config \<Rightarrow> environment \<Rightarrow> matched list \<Rightarrow> string \<Rightarrow> (string, event_value) lru_cache
     \<Rightarrow> (error + (string \<times> string) list) \<times> (string, event_value) lru_cache" where
  "event_processor cfg env =
     process
       (filter_matches (event_cache_size cfg) extract_departure_id_and_event
          (check_event_for_inclusion (pre_journey_prediction_threshold_in_seconds cfg)))
       (event_serializer (json_dumps env) (event_mqtt_topic_mid cfg))"

definition prediction_processor ::
  "config \<Rightarrow> environment \<Rightarrow> matched list \<Rightarrow> string \<Rightarrow> (string, prediction_value) lru_cache
     \<Rightarrow> (error + (string \<times> string) list) \<times> (string, prediction_value) lru_cache" where
  "prediction_processor cfg env =
     process
       (filter_matches (prediction_cache_size cfg) extract_departure_id_and_prediction
          (check_prediction_for_inclusion (pre_journey_prediction_threshold_in_seconds cfg)
             (prediction_change_threshold_in_seconds cfg)))
       (prediction_serializer (json_dumps env) (prediction_mqtt_topic_mid cfg))"

text \<open>
  One call of \<^verbatim>\<open>_poll\<close> in cycle \<open>cycle\<close>. The two processors run as tasks whose exceptions
  stay in the tasks, so the cycle goes on to the new timestamp whatever they did; an
  exception of the matcher ends the call, and a matcher that never returns makes the
  call \<open>None\<close>. The value is the new state and what each processor put on the queue.
\<close>

definition poll ::
  "config \<Rightarrow> environment \<Rightarrow> nat \<Rightarrow> poller_state
     \<Rightarrow> (error + poller_state \<times> (error + (string \<times> string) list) list) option" where
  "poll cfg env cycle st =
     (let modified_utc = format_datetime_for_sql (modified_utc_dt st);
          rows = query_from_roi env cycle modified_utc
      in case rows of
           [] \<Rightarrow> Some (Inr (st, []))
         | r # rs \<Rightarrow>
             let message_timestamp = create_timestamp (utcnow env cycle)
             in (case get_all_matches (mapper_update env) (rounds st) (tables st) rows of
                   None \<Rightarrow> None
                 | Some (Inl e, ms', n') \<Rightarrow> Some (Inl e)
                 | Some (Inr matched_rows, ms', n') \<Rightarrow>
                     (let ev = event_processor cfg env matched_rows message_timestamp
                                (event_cache st);
                          pr = prediction_processor cfg env matched_rows message_timestamp
                                (prediction_cache st)
                      in Some (Inr
                           (\<lparr> modified_utc_dt =
                                 fold max (map LastModifiedUTCDateTime rs)
                                   (LastModifiedUTCDateTime r),
                               tables = ms', rounds = n',
                               event_cache = snd ev, prediction_cache = snd pr \<rparr>,
                            [fst ev, fst pr])))))"

definition initial_state :: "config \<Rightarrow> datetime \<Rightarrow> mappers \<Rightarrow> poller_state" where
  "initial_state cfg start_utcnow ms =
     \<lparr> modified_utc_dt = start_utcnow - poll_interval cfg,
       tables = ms, rounds = 0, event_cache = [], prediction_cache = [] \<rparr>"



section \<open>Concrete inputs\<close>

text \<open>
  A row of a bus departure, the journey it belongs to, and the match built from a row.
  The theorems below are run on these values.
\<close>

definition example_row :: row where
  "example_row =
     \<lparr> DepartureId = ''D1'', DatedVehicleJourneyId = ''J1'', JourneyPatternPointGid = ''P1'',
       TimetabledEarliestDateTime = datetime_of 2023 5 1 8 15 0 0,
       ObservedDateTime = None,
       TargetDateTime = datetime_of 2023 5 1 8 15 30 250000,
       JourneyPatternSequenceNumber = 2,
       State = 2,
       LastModifiedUTCDateTime = datetime_of 2023 5 1 5 14 0 0 \<rparr>"

definition example_journey :: journey_info where
  "example_journey =
     \<lparr> JoreLineId = ''1001'', JoreDirection = ''1'',
       LocalizedStartTime = datetime_of 2023 5 1 8 0 0 0,
       OperatingDayDate = datetime_of 2023 5 1 0 0 0 0,
       OffsetSeconds = 28800 \<rparr>"

definition example_matched :: "row \<Rightarrow> matched" where
  "example_matched r =
     \<lparr> source = r, stop = \<lparr> JoreStopId = ''1130101'' \<rparr>, journey = example_journey,
       utc_offset = \<lparr> UTCOffsetMinutes = 180 \<rparr> \<rparr>"


text \<open>A row whose observed time is five seconds before its target time.\<close>

definition example_observed_row :: row where
  "example_observed_row =
     example_row\<lparr> ObservedDateTime := Some (datetime_of 2023 5 1 8 15 25 250000) \<rparr>"

text \<open>
  Tables in which the keys of \<open>example_row\<close> are found; rounds of updates that leave the
  tables alone, the first of them reporting a change of the journey mapper; and rounds
  whose first adds the stop point P2 and reports it.
\<close>

definition example_tables :: mappers where
  "example_tables =
     \<lparr> stop_mapper = [''P1'' \<mapsto> \<lparr> JoreStopId = ''1130101'' \<rparr>],
       journey_mapper = [''J1'' \<mapsto> example_journey],
       utc_offset_mapper = [''J1'' \<mapsto> \<lparr> UTCOffsetMinutes = 180 \<rparr>] \<rparr>"

definition example_update_quiet :: "nat \<Rightarrow> mappers \<Rightarrow> mappers \<times> (error + bool) list" where
  "example_update_quiet n ms = (ms, [Inr False, Inr (n = 0), Inr False])"

definition example_update_stop :: "nat \<Rightarrow> mappers \<Rightarrow> mappers \<times> (error + bool) list" where
  "example_update_stop n ms =
     (if n = 0
      then (ms\<lparr> stop_mapper := (stop_mapper ms)(''P2'' \<mapsto> \<lparr> JoreStopId = ''1040101'' \<rparr>) \<rparr>,
            [Inr True, Inr False, Inr False])
      else (ms, [Inr False, Inr False, Inr False]))"

text \<open>
  A configuration, a row whose stop point is in no table and that was modified last, an
  environment whose database returns two rows in the first cycle and none afterwards and
  whose mappers never change, and the state in which the poller starts.
\<close>

definition example_config :: config where
  "example_config =
     \<lparr> poll_interval = timedelta_seconds 1,
       pre_journey_prediction_threshold_in_seconds = 10800,
       prediction_change_threshold_in_seconds = 30,
       prediction_cache_size = 100,
       event_cache_size = 100,
       prediction_mqtt_topic_mid = ''prediction/'',
       event_mqtt_topic_mid = ''event/'' \<rparr>"

definition example_unresolved_row :: row where
  "example_unresolved_row =
     example_row\<lparr> DepartureId := ''D9'', JourneyPatternPointGid := ''P9'',
                   LastModifiedUTCDateTime := datetime_of 2023 5 1 5 14 2 0 \<rparr>"

definition example_env :: environment where
  "example_env =
     \<lparr> query_from_roi =
         (\<lambda>cycle modified_utc. if cycle = 0 then [example_row, example_unresolved_row] else []),
       utcnow = (\<lambda>cycle. datetime_of 2023 5 1 5 14 5 0 + timedelta_seconds (int cycle)),
       mapper_update = (\<lambda>n ms. (ms, [Inr False, Inr False, Inr False])),
       json_dumps = (\<lambda>j. []) \<rparr>"

definition example_state :: poller_state where
  "example_state = initial_state example_config (datetime_of 2023 5 1 5 14 0 500000) example_tables"

lemmas example_defs = example_row_def example_journey_def example_matched_def


section \<open>What a filter has accepted\<close>

text \<open>
  For the invariant of the caches: the records that a call of the filter accepts, in
  order, up to an exception that ends the call; the snapshot of the last record of a
  history stored under a key; and the relation between a cache and the history of
  accepted records, that every entry of the cache is the snapshot of the last accepted
  record of its key.
\<close>

fun accepted ::
  "int \<Rightarrow> ('m \<Rightarrow> 'k \<times> 'v) \<Rightarrow> ('v \<Rightarrow> 'v option \<Rightarrow> error + bool) \<Rightarrow> 'm list
     \<Rightarrow> ('k, 'v) lru_cache \<Rightarrow> 'm list" where
  "accepted cache_size ex inc [] cache = []"
| "accepted cache_size ex inc (m # ms) cache =
     (case is_included_and_cached cache_size ex inc m cache of
        (Inl e, cache') \<Rightarrow> []
      | (Inr is_kept, cache') \<Rightarrow>
          (if is_kept then [m] else []) @ accepted cache_size ex inc ms cache')"

definition last_accepted :: "('m \<Rightarrow> 'k \<times> 'v) \<Rightarrow> 'm list \<Rightarrow> 'k \<Rightarrow> 'v option" where
  "last_accepted ex hist key = map_of (rev (map ex hist)) key"

definition cache_reflects :: "('m \<Rightarrow> 'k \<times> 'v) \<Rightarrow> 'm list \<Rightarrow> ('k, 'v) lru_cache \<Rightarrow> bool" where
  "cache_reflects ex hist cache \<longleftrightarrow>
     (\<forall>key v. map_of cache key = Some v \<longrightarrow> last_accepted ex hist key = Some v)"


section \<open>Grouping by key\<close>

text \<open>
  What grouping is to compute, to compare the arranger with: the keys in the order in
  which they first occur, each with the values of its pairs, in order.
\<close>

definition first_seen :: "'a list \<Rightarrow> 'a list" where
  "first_seen xs = rev (remdups (rev xs))"



section \<open>Rounds of the matcher\<close>

text \<open>
  To speak about the loop of the matcher: the tables after \<open>k\<close> rounds of updates that
  start with round \<open>n\<close> on the tables \<open>ms\<close>, what the \<open>k\<close>-th of these rounds reports,
  and whether the three keys of a row are found in given tables.
\<close>

fun tables_after ::
  "(nat \<Rightarrow> mappers \<Rightarrow> mappers \<times> (error + bool) list) \<Rightarrow> nat \<Rightarrow> mappers \<Rightarrow> nat \<Rightarrow> mappers" where
  "tables_after update n ms 0 = ms"
| "tables_after update n ms (Suc k) = tables_after update (Suc n) (fst (update n ms)) k"

definition round_result ::
  "(nat \<Rightarrow> mappers \<Rightarrow> mappers \<times> (error + bool) list) \<Rightarrow> nat \<Rightarrow> mappers \<Rightarrow> nat \<Rightarrow> error + bool" where
  "round_result update n ms k =
     update_mappers (snd (update (n + k) (tables_after update n ms k)))"

definition resolved :: "mappers \<Rightarrow> row \<Rightarrow> bool" where
  "resolved ms r \<longleftrightarrow>
     stop_mapper ms (JourneyPatternPointGid r) \<noteq> None
     \<and> journey_mapper ms (DatedVehicleJourneyId r) \<noteq> None
     \<and> utc_offset_mapper ms (DatedVehicleJourneyId r) \<noteq> None"


section \<open>The timestamp along the cycles\<close>



section \<open>Timestamps are rendered with a signed offset\<close>

lemmas calendar_defs =
  datetime_of_def ymd2ord_def days_before_year_def days_before_month_def
  DAYS_BEFORE_MONTH_def DAYS_IN_MONTH_def is_leap_def US_PER_SECOND_def US_PER_DAY_def
  ord2ymd_def dt_year_def dt_month_def dt_day_def dt_hour_def dt_minute_def dt_second_def
  dt_microsecond_def

lemmas render_defs =
  combine_into_timestamp_def isoformat_milliseconds_def minutes_to_hours_string_def
  MINUTES_IN_HOUR_def format_0d_def zfill_def str_nat.simps

text \<open>
  C8. For every naive timestamp \<open>t\<close> and offset of \<open>m\<close> minutes, the rendered string is
  \<open>t\<close> in ISO form with milliseconds, then the sign (\<open>-\<close> exactly when \<open>m < 0\<close>), then the
  quotient and the remainder of \<open>|m|\<close> by 60, each zero padded to two digits, with a colon
  between. 2023-05-01T08:15:30.250 with offset -150 renders as
  2023-05-01T08:15:30.250-02:30, and the batch timestamp, rendered with offset 0, ends in
  +00:00.
\<close>

theorem timestamp_rendering:
  "combine_into_timestamp t m =
     isoformat_milliseconds t @ [if m < 0 then CHR ''-'' else CHR ''+'']
       @ format_0d 2 (\<bar>m\<bar> div 60) @ '':'' @ format_0d 2 (\<bar>m\<bar> mod 60)
   \<and> combine_into_timestamp (datetime_of 2023 5 1 8 15 30 250000) (- 150)
       = ''2023-05-01T08:15:30.250-02:30''
   \<and> create_timestamp utcnow_reading = isoformat_milliseconds utcnow_reading @ ''+00:00''"
proof (intro conjI)
  show "combine_into_timestamp t m =
     isoformat_milliseconds t @ [if m < 0 then CHR ''-'' else CHR ''+'']
       @ format_0d 2 (\<bar>m\<bar> div 60) @ '':'' @ format_0d 2 (\<bar>m\<bar> mod 60)"
    by (simp add: combine_into_timestamp_def minutes_to_hours_string_def MINUTES_IN_HOUR_def)
  show "combine_into_timestamp (datetime_of 2023 5 1 8 15 30 250000) (- 150)
       = ''2023-05-01T08:15:30.250-02:30''"
    by (simp add: calendar_defs render_defs Let_def)
  show "create_timestamp utcnow_reading = isoformat_milliseconds utcnow_reading @ ''+00:00''"
    by (simp add: create_timestamp_def combine_into_timestamp_def minutes_to_hours_string_def
        MINUTES_IN_HOUR_def format_0d_def zfill_def str_nat.simps)
qed

section \<open>The filters\<close>

subsection \<open>One step of the generic filter\<close>







subsection \<open>The state codes\<close>

lemma dom_DEPARTURE_STATES: "dom DEPARTURE_STATES = {0, 1, 2, 3, 4, 6, 7, 8, 9, 10, 11, 12, 13}"
  unfolding DEPARTURE_STATES_def dom_map_of_conv_image_fst by simp








subsection \<open>The event filter\<close>



subsection \<open>The prediction filter\<close>


lemma pv_TargetDateTime_extract:
  "pv_TargetDateTime (snd (extract_departure_id_and_prediction m))
     = (case ObservedDateTime (source m) of
          None \<Rightarrow> TargetDateTime (source m)
        | Some observed \<Rightarrow> observed)"
  by (simp add: extract_departure_id_and_prediction_def Let_def split: option.splits)




lemmas checker_defs =
  check_event_for_inclusion_def check_prediction_for_inclusion_def
  extract_departure_id_and_event_def extract_departure_id_and_prediction_def
  is_train_def startswith_def total_seconds_def timedelta_minutes_def timedelta_seconds_def
  DEPARTURE_STATES_def







subsection \<open>State codes outside the table\<close>

lemma arrange_event_error: "arrange_event m = Inl e \<Longrightarrow> e = KeyError"
  by (simp add: arrange_event_def Let_def split: option.splits)

lemma arrange_event_unmapped:
  "State (source m) \<notin> dom DEPARTURE_STATES \<Longrightarrow> arrange_event m = Inl KeyError"
  by (auto simp add: arrange_event_def Let_def dom_def split: option.splits)

lemma arrange_loop_event_unmapped:
  "\<exists>m \<in> set ms. State (source m) \<notin> dom DEPARTURE_STATES \<Longrightarrow>
     arrange_loop arrange_event ms by_key = Inl KeyError"
proof (induction ms arbitrary: by_key)
  case Nil
  then show ?case by simp
next
  case (Cons a ms)
  show ?case
  proof (cases "arrange_event a")
    case (Inl e)
    then show ?thesis using arrange_event_error[OF Inl] by simp
  next
    case (Inr kv)
    then have "State (source a) \<in> dom DEPARTURE_STATES"
      using arrange_event_unmapped[of a] by auto
    with Cons.prems have "\<exists>m \<in> set ms. State (source m) \<notin> dom DEPARTURE_STATES" by auto
    from Cons.IH[OF this] Inr show ?thesis by (simp split: prod.splits)
  qed
qed

lemma check_prediction_unmapped:
  "pv_State current \<notin> dom DEPARTURE_STATES \<Longrightarrow>
     check_prediction_for_inclusion thr chg current cached = Inl KeyError"
  by (auto simp add: check_prediction_for_inclusion_def Let_def dom_def split: option.splits)

text \<open>
  C10. \<open>DEPARTURE_STATES\<close> has 13 codes, and 5 is not one of them. For a record whose
  state code is not in the table, code 5 for one, the decision function of the prediction
  filter raises a lookup error and returns no decision. The decision function of the
  event filter compares the integer codes and returns a decision for every state code;
  such a record fails later, when the event serializer looks its state up.
\<close>

theorem state_code_partiality:
  "dom DEPARTURE_STATES = {0, 1, 2, 3, 4, 6, 7, 8, 9, 10, 11, 12, 13}
   \<and> card (dom DEPARTURE_STATES) = 13
   \<and> (pv_State current \<notin> dom DEPARTURE_STATES \<longrightarrow>
        check_prediction_for_inclusion thr chg current cached = Inl KeyError)
   \<and> check_prediction_for_inclusion thr chg (current\<lparr> pv_State := 5 \<rparr>) cached = Inl KeyError
   \<and> check_event_for_inclusion thr ev ev_cached =
       Inr (\<not> (ev_JourneyPatternSequenceNumber ev = 1
                \<and> total_seconds (ev_StartUTCDateTime ev - ev_LastModifiedUTCDateTime ev) > thr)
            \<and> \<not> is_train (ev_JoreLineId ev)
            \<and> (case ev_cached of None \<Rightarrow> True | Some c \<Rightarrow> ev_State ev \<noteq> ev_State c))
   \<and> (State (source m) \<notin> dom DEPARTURE_STATES \<longrightarrow> arrange_event m = Inl KeyError)
   \<and> ((\<exists>x \<in> set kept. State (source x) \<notin> dom DEPARTURE_STATES) \<longrightarrow>
        event_serializer dumps mid kept message_timestamp = Inl KeyError)"
proof (intro conjI impI)
  show d: "dom DEPARTURE_STATES = {0, 1, 2, 3, 4, 6, 7, 8, 9, 10, 11, 12, 13}"
    by (rule dom_DEPARTURE_STATES)
  show "card (dom DEPARTURE_STATES) = 13"
    unfolding d by simp
  show "check_prediction_for_inclusion thr chg (current\<lparr> pv_State := 5 \<rparr>) cached = Inl KeyError"
    by (rule check_prediction_unmapped) (simp add: d)
  show "check_event_for_inclusion thr ev ev_cached =
       Inr (\<not> (ev_JourneyPatternSequenceNumber ev = 1
                \<and> total_seconds (ev_StartUTCDateTime ev - ev_LastModifiedUTCDateTime ev) > thr)
            \<and> \<not> is_train (ev_JoreLineId ev)
            \<and> (case ev_cached of None \<Rightarrow> True | Some c \<Rightarrow> ev_State ev \<noteq> ev_State c))"
    by (simp add: check_event_for_inclusion_def Let_def split: option.splits)
next
  assume "pv_State current \<notin> dom DEPARTURE_STATES"
  then show "check_prediction_for_inclusion thr chg current cached = Inl KeyError"
    by (rule check_prediction_unmapped)
next
  assume "State (source m) \<notin> dom DEPARTURE_STATES"
  then show "arrange_event m = Inl KeyError" by (rule arrange_event_unmapped)
next
  assume "\<exists>x \<in> set kept. State (source x) \<notin> dom DEPARTURE_STATES"
  then show "event_serializer dumps mid kept message_timestamp = Inl KeyError"
    by (simp add: event_serializer_def arrange_by_key_def arrange_loop_event_unmapped)
qed

theorem state_code_partiality_witness:
  "check_prediction_for_inclusion 10800 30
      (snd (extract_departure_id_and_prediction (example_matched (example_row\<lparr> State := 5 \<rparr>))))
      None = Inl KeyError
   \<and> check_event_for_inclusion 10800
      (snd (extract_departure_id_and_event (example_matched (example_row\<lparr> State := 5 \<rparr>))))
      None = Inr True
   \<and> arrange_event (example_matched (example_row\<lparr> State := 5 \<rparr>)) = Inl KeyError
   \<and> event_serializer (\<lambda>j. []) ''event/''
        [example_matched example_row, example_matched (example_row\<lparr> State := 5 \<rparr>)]
        ''2023-05-01T05:14:01.000+00:00''
       = Inl KeyError"
  using state_code_partiality [of
      "snd (extract_departure_id_and_prediction (example_matched (example_row\<lparr> State := 5 \<rparr>)))"
      10800 30 None
      "snd (extract_departure_id_and_event (example_matched (example_row\<lparr> State := 5 \<rparr>)))"
      None "example_matched (example_row\<lparr> State := 5 \<rparr>)"
      "[example_matched example_row, example_matched (example_row\<lparr> State := 5 \<rparr>)]"
      "\<lambda>j. []" "''event/''" "''2023-05-01T05:14:01.000+00:00''"]
  by (simp add: example_defs checker_defs calendar_defs Let_def)


subsection \<open>Observed times\<close>

lemma arrange_prediction_ignores_observed:
  "arrange_prediction (m\<lparr> source := (source m)\<lparr> ObservedDateTime := observed \<rparr> \<rparr>)
     = arrange_prediction m"
  by (simp add: arrange_prediction_def Let_def)

text \<open>
  C3. Extraction for the prediction filter replaces the target time by the observed time,
  so the filter classifies and caches the observed time. The serializer reads the target
  time of the row again: for a record with target 08:15:30.250 and observed 08:15:25.250
  the emitted \<open>predictedDepartureTime\<close> is the target time, not the observed one.
\<close>

theorem observed_time_not_emitted:
  "pv_TargetDateTime
      (snd (extract_departure_id_and_prediction (example_matched example_observed_row)))
     = datetime_of 2023 5 1 8 15 25 250000
   \<and> arrange_prediction (example_matched example_observed_row)
     = Inr (''1130101'', JDict
         [(''joreStopId'', JStr ''1130101''),
          (''joreLineId'', JStr ''1001''),
          (''joreLineDirection'', JStr ''1''),
          (''journeyStartTime'', JStr ''2023-05-01T08:00:00.000+03:00''),
          (''stopOrderInJourney'', JInt 2),
          (''operatingDay'', JStr ''2023-05-01''),
          (''journeyStartInSecondsIntoOperatingDay'', JInt 28800),
          (''scheduledDepartureTime'', JStr ''2023-05-01T08:15:00.000+03:00''),
          (''predictedDepartureTime'', JStr ''2023-05-01T08:15:30.250+03:00'')])
   \<and> combine_into_timestamp (datetime_of 2023 5 1 8 15 25 250000) 180
     = ''2023-05-01T08:15:25.250+03:00''"
  by code_simp

subsection \<open>The cache holds the last accepted record\<close>

lemma map_of_filter_key:
  "map_of (filter (\<lambda>kv. fst kv \<noteq> key) cache) k
     = (if k = key then None else map_of cache k)"
  by (induction cache) auto

lemma map_of_take_Some:
  "map_of (take n cache) k = Some v \<Longrightarrow> map_of cache k = Some v"
proof (induction cache arbitrary: n)
  case Nil
  then show ?case by simp
next
  case (Cons a cache)
  then show ?case by (cases n) (auto split: if_splits)
qed

lemma lru_get_map_of: "map_of (snd (lru_get key cache)) = map_of cache"
  by (rule ext) (auto simp add: lru_get_def map_of_filter_key split: option.splits)

lemma lru_get_fst: "fst (lru_get key cache) = map_of cache key"
  by (simp add: lru_get_def split: option.splits)

lemma lru_set_map_of:
  assumes "lru_set maxsize key val cache = Inr cache'" "map_of cache' k = Some v"
  shows "(k = key \<and> v = val) \<or> (k \<noteq> key \<and> map_of cache k = Some v)"
  using assms
  by (auto simp add: lru_set_def map_of_filter_key split: if_splits dest: map_of_take_Some)

lemma lru_set_written:
  "lru_set maxsize key val cache = Inr cache' \<Longrightarrow> map_of cache' key = Some val"
  by (auto simp add: lru_set_def split: if_splits)

lemma step_rejected:
  assumes "is_included_and_cached cs ex inc m cache = (r, cache')" "r \<noteq> Inr True"
  shows "map_of cache' = map_of cache"
  using assms
  by (auto simp add: is_included_and_cached_def Let_def lru_get_map_of
      split: sum.splits if_splits)

lemma step_accepted:
  assumes "is_included_and_cached cs ex inc m cache = (Inr True, cache')"
  shows "map_of cache' (fst (ex m)) = Some (snd (ex m))"
    and "map_of cache' k = Some v \<Longrightarrow> k \<noteq> fst (ex m) \<Longrightarrow> map_of cache k = Some v"
  using assms
  by (auto simp add: is_included_and_cached_def Let_def lru_get_map_of lru_set_written
      split: sum.splits if_splits dest!: lru_set_map_of)

lemma last_accepted_snoc:
  "last_accepted ex (hist @ [m]) k
     = (if k = fst (ex m) then Some (snd (ex m)) else last_accepted ex hist k)"
  by (cases "ex m") (simp add: last_accepted_def)

lemma step_reflects:
  assumes "cache_reflects ex hist cache"
    and "is_included_and_cached cs ex inc m cache = (r, cache')"
  shows "cache_reflects ex (hist @ (if r = Inr True then [m] else [])) cache'"
proof (cases "r = Inr True")
  case True
  with assms(2) have s: "is_included_and_cached cs ex inc m cache = (Inr True, cache')" by simp
  show ?thesis
    unfolding cache_reflects_def
  proof (intro allI impI)
    fix key v assume a: "map_of cache' key = Some v"
    show "last_accepted ex (hist @ (if r = Inr True then [m] else [])) key = Some v"
    proof (cases "key = fst (ex m)")
      case True
      with a step_accepted(1)[OF s] \<open>r = Inr True\<close> show ?thesis
        by (simp add: last_accepted_snoc)
    next
      case False
      from step_accepted(2)[OF s a False] assms(1) have "last_accepted ex hist key = Some v"
        by (simp add: cache_reflects_def)
      with False \<open>r = Inr True\<close> show ?thesis by (simp add: last_accepted_snoc)
    qed
  qed
next
  case False
  from step_rejected[OF assms(2) False] assms(1) False show ?thesis
    by (simp add: cache_reflects_def)
qed

lemma filter_reflects:
  "cache_reflects ex hist cache \<Longrightarrow>
     cache_reflects ex (hist @ accepted cs ex inc ms cache)
       (snd (filter_matches cs ex inc ms cache))"
proof (induction ms arbitrary: hist cache)
  case Nil
  then show ?case by simp
next
  case (Cons m ms)
  obtain r cache' where s: "is_included_and_cached cs ex inc m cache = (r, cache')"
    by (cases "is_included_and_cached cs ex inc m cache") auto
  from step_reflects[OF Cons.prems s]
  have r1: "cache_reflects ex (hist @ (if r = Inr True then [m] else [])) cache'" .
  show ?case
  proof (cases r)
    case (Inl e)
    with s r1 show ?thesis by simp
  next
    case (Inr b)
    from Cons.IH[OF r1]
    have "cache_reflects ex ((hist @ (if r = Inr True then [m] else []))
             @ accepted cs ex inc ms cache') (snd (filter_matches cs ex inc ms cache'))" .
    with s Inr show ?thesis
      by (auto simp add: split: prod.splits sum.splits)
  qed
qed

lemma filter_kept_accepted:
  "fst (filter_matches cs ex inc ms cache) = Inr kept \<Longrightarrow> kept = accepted cs ex inc ms cache"
proof (induction ms arbitrary: cache kept)
  case Nil
  then show ?case by simp
next
  case (Cons m ms)
  then show ?case
    by (auto split: prod.splits sum.splits if_splits)
qed

lemma step_absent:
  "map_of cache (fst (ex m)) = None \<Longrightarrow>
     fst (is_included_and_cached cs ex inc m cache) = fst (is_included_and_cached cs ex inc m [])"
  by (auto simp add: is_included_and_cached_def Let_def lru_get_def lru_set_def
      split: sum.splits option.splits)

text \<open>
  C7. For a filter with any extraction and any decision function, so for the event and
  the prediction filter, every entry of the cache is the extracted snapshot of the last
  record the filter accepted for that key: the relation holds for the empty cache of a
  new filter and every call of the filter keeps it, whatever the records, and also when
  the call ends in an exception. A step that does not accept leaves the entries as they
  are, a step that accepts stores the snapshot of its record, and a key without an entry,
  never stored or evicted, is decided as on an empty cache.
\<close>

theorem cache_holds_last_accepted:
  "(cache_reflects ex hist cache \<longrightarrow>
      cache_reflects ex (hist @ accepted cs ex inc ms cache)
        (snd (filter_matches cs ex inc ms cache)))
   \<and> cache_reflects ex [] []
   \<and> (fst (filter_matches cs ex inc ms cache) = Inr kept \<longrightarrow>
        kept = accepted cs ex inc ms cache)
   \<and> (is_included_and_cached cs ex inc m cache = (r, cache') \<and> r \<noteq> Inr True \<longrightarrow>
        map_of cache' = map_of cache)
   \<and> (is_included_and_cached cs ex inc m cache = (Inr True, cache') \<longrightarrow>
        map_of cache' (fst (ex m)) = Some (snd (ex m)))
   \<and> (map_of cache (fst (ex m)) = None \<longrightarrow>
        fst (is_included_and_cached cs ex inc m cache)
          = fst (is_included_and_cached cs ex inc m []))"
proof (intro conjI impI)
  show "cache_reflects ex [] []" by (simp add: cache_reflects_def)
next
  assume "cache_reflects ex hist cache"
  then show "cache_reflects ex (hist @ accepted cs ex inc ms cache)
        (snd (filter_matches cs ex inc ms cache))"
    by (rule filter_reflects)
next
  assume "fst (filter_matches cs ex inc ms cache) = Inr kept"
  then show "kept = accepted cs ex inc ms cache" by (rule filter_kept_accepted)
next
  assume "is_included_and_cached cs ex inc m cache = (r, cache') \<and> r \<noteq> Inr True"
  then show "map_of cache' = map_of cache"
    using step_rejected[of cs ex inc m cache r cache'] by simp
next
  assume "is_included_and_cached cs ex inc m cache = (Inr True, cache')"
  then show "map_of cache' (fst (ex m)) = Some (snd (ex m))" by (rule step_accepted(1))
next
  assume "map_of cache (fst (ex m)) = None"
  then show "fst (is_included_and_cached cs ex inc m cache)
          = fst (is_included_and_cached cs ex inc m [])"
    by (rule step_absent)
qed


lemmas filter_defs = is_included_and_cached_def lru_get_def lru_set_def

theorem cache_holds_last_accepted_witness:
  "cache_reflects extract_departure_id_and_event []
     ([] :: (string, event_value) lru_cache)
   \<and> cache_reflects extract_departure_id_and_event
        [example_matched example_row,
         example_matched (example_row\<lparr> DepartureId := ''D2'' \<rparr>),
         example_matched example_row]
        (snd (filter_matches 1 extract_departure_id_and_event (check_event_for_inclusion 10800)
           [example_matched example_row,
            example_matched (example_row\<lparr> DepartureId := ''D2'' \<rparr>),
            example_matched example_row] []))
   \<and> fst (filter_matches 1 extract_departure_id_and_event (check_event_for_inclusion 10800)
           [example_matched example_row,
            example_matched (example_row\<lparr> DepartureId := ''D2'' \<rparr>),
            example_matched example_row] [])
      = Inr [example_matched example_row,
            example_matched (example_row\<lparr> DepartureId := ''D2'' \<rparr>),
            example_matched example_row]
   \<and> is_included_and_cached 1 extract_departure_id_and_event (check_event_for_inclusion 10800)
        (example_matched example_row) []
      = (Inr True, [extract_departure_id_and_event (example_matched example_row)])
   \<and> map_of [extract_departure_id_and_event (example_matched example_row)] ''D1''
      = Some (snd (extract_departure_id_and_event (example_matched example_row)))"
  using cache_holds_last_accepted [where ex = extract_departure_id_and_event
      and hist = "[]" and cache = "[] :: (string, event_value) lru_cache" and cs = 1
      and inc = "check_event_for_inclusion 10800"
      and ms = "[example_matched example_row,
            example_matched (example_row\<lparr> DepartureId := ''D2'' \<rparr>),
            example_matched example_row]"
      and kept = "[example_matched example_row,
            example_matched (example_row\<lparr> DepartureId := ''D2'' \<rparr>),
            example_matched example_row]"
      and m = "example_matched example_row" and r = "Inr True"
      and cache' = "[extract_departure_id_and_event (example_matched example_row)]"]
  by (simp add: filter_defs example_defs checker_defs calendar_defs Let_def)

section \<open>The serializers\<close>


lemma set_first_seen [simp]: "set (first_seen xs) = set xs"
  by (simp add: first_seen_def)

lemma distinct_first_seen [simp]: "distinct (first_seen xs)"
  by (simp add: first_seen_def)














section \<open>The matcher\<close>

lemma round_result_0: "round_result update n ms 0 = update_mappers (snd (update n ms))"
  by (simp add: round_result_def)

lemma round_result_Suc:
  "round_result update n ms (Suc k) = round_result update (Suc n) (fst (update n ms)) k"
  by (simp add: round_result_def)

lemma get_all_matches_unfold:
  "get_all_matches update n ms rows =
     (if isl (round_result update n ms 0)
      then Some (Inl (projl (round_result update n ms 0)), fst (update n ms), Suc n)
      else if projr (round_result update n ms 0)
      then get_all_matches update (Suc n) (fst (update n ms)) rows
      else Some (Inr (List.map_filter id (map (get_matches ms) rows)), fst (update n ms), Suc n))"
  by (subst get_all_matches.simps) (simp add: round_result_0 Let_def split: sum.splits)

lemma matcher_returns:
  assumes "\<forall>j<k. round_result update n ms j = Inr True"
    and "round_result update n ms k = Inr False"
  shows "get_all_matches update n ms rows =
     Some (Inr (List.map_filter id (map (get_matches (tables_after update n ms k)) rows)),
           tables_after update n ms (Suc k), n + Suc k)"
  using assms
proof (induction k arbitrary: n ms)
  case 0
  then show ?case by (subst get_all_matches_unfold) simp
next
  case (Suc k)
  from Suc.prems(1) have r0: "round_result update n ms 0 = Inr True" by simp
  have "\<forall>j<k. round_result update (Suc n) (fst (update n ms)) j = Inr True"
  proof (intro allI impI)
    fix j assume "j < k"
    then have "round_result update n ms (Suc j) = Inr True" using Suc.prems(1) by simp
    then show "round_result update (Suc n) (fst (update n ms)) j = Inr True"
      by (simp only: round_result_Suc)
  qed
  moreover have "round_result update (Suc n) (fst (update n ms)) k = Inr False"
    using Suc.prems(2) by (simp add: round_result_Suc)
  ultimately have "get_all_matches update (Suc n) (fst (update n ms)) rows =
     Some (Inr (List.map_filter id
                  (map (get_matches (tables_after update (Suc n) (fst (update n ms)) k)) rows)),
           tables_after update (Suc n) (fst (update n ms)) (Suc k), Suc n + Suc k)"
    by (rule Suc.IH)
  then show ?case by (subst get_all_matches_unfold) (simp add: r0)
qed

lemma matcher_raises:
  assumes "\<forall>j<k. round_result update n ms j = Inr True"
    and "round_result update n ms k = Inl e"
  shows "get_all_matches update n ms rows =
     Some (Inl e, tables_after update n ms (Suc k), n + Suc k)"
  using assms
proof (induction k arbitrary: n ms)
  case 0
  then show ?case by (subst get_all_matches_unfold) simp
next
  case (Suc k)
  from Suc.prems(1) have r0: "round_result update n ms 0 = Inr True" by simp
  have "\<forall>j<k. round_result update (Suc n) (fst (update n ms)) j = Inr True"
  proof (intro allI impI)
    fix j assume "j < k"
    then have "round_result update n ms (Suc j) = Inr True" using Suc.prems(1) by simp
    then show "round_result update (Suc n) (fst (update n ms)) j = Inr True"
      by (simp only: round_result_Suc)
  qed
  moreover have "round_result update (Suc n) (fst (update n ms)) k = Inl e"
    using Suc.prems(2) by (simp add: round_result_Suc)
  ultimately have "get_all_matches update (Suc n) (fst (update n ms)) rows =
     Some (Inl e, tables_after update (Suc n) (fst (update n ms)) (Suc k), Suc n + Suc k)"
    by (rule Suc.IH)
  then show ?case by (subst get_all_matches_unfold) (simp add: r0)
qed

lemma matcher_some_round:
  assumes "get_all_matches update n ms rows = Some y"
  shows "\<exists>k. (\<forall>j<k. round_result update n ms j = Inr True)
             \<and> round_result update n ms k \<noteq> Inr True"
proof (rule get_all_matches.raw_induct
    [where P = "\<lambda>u n ms rows y.
       \<exists>k. (\<forall>j<k. round_result u n ms j = Inr True) \<and> round_result u n ms k \<noteq> Inr True",
     OF _ assms], goal_cases)
  case (1 loop update n ms rows y)
  show ?case
  proof (cases "round_result update n ms 0 = Inr True")
    case False
    then show ?thesis by (intro exI[of _ 0]) simp
  next
    case True
    then have "update_mappers (snd (update n ms)) = Inr True" by (simp only: round_result_0)
    with 1(2) have "loop update (Suc n) (fst (update n ms)) rows = Some y"
      by (simp add: Let_def)
    from 1(1)[OF this] obtain k where
      k: "\<forall>j<k. round_result update (Suc n) (fst (update n ms)) j = Inr True"
         "round_result update (Suc n) (fst (update n ms)) k \<noteq> Inr True"
      by (elim exE conjE)
    have "\<forall>j<Suc k. round_result update n ms j = Inr True"
    proof (intro allI impI)
      fix j assume "j < Suc k"
      then show "round_result update n ms j = Inr True"
      proof (cases j)
        case 0
        with True show ?thesis by simp
      next
        case (Suc i)
        with \<open>j < Suc k\<close> have "i < k" by simp
        with k(1) have "round_result update (Suc n) (fst (update n ms)) i = Inr True" by simp
        then show ?thesis unfolding Suc by (simp only: round_result_Suc)
      qed
    qed
    moreover have "round_result update n ms (Suc k) \<noteq> Inr True"
      using k(2) by (simp only: round_result_Suc not_False_eq_True)
    ultimately show ?thesis by (intro exI[of _ "Suc k"] conjI)
  qed
qed

lemma matcher_diverges:
  assumes "\<forall>k. round_result update n ms k = Inr True"
  shows "get_all_matches update n ms rows = None"
proof (cases "get_all_matches update n ms rows")
  case None
  then show ?thesis .
next
  case (Some y)
  from matcher_some_round[OF Some] obtain k where "round_result update n ms k \<noteq> Inr True"
    by (elim exE conjE)
  with assms show ?thesis by simp
qed


lemma get_matches_None_iff: "get_matches ms r = None \<longleftrightarrow> \<not> resolved ms r"
  by (auto simp add: get_matches_def resolved_def Let_def split: option.splits)

lemma get_matches_source: "get_matches ms r = Some m \<Longrightarrow> source m = r"
  by (auto simp add: get_matches_def Let_def split: option.splits)

lemma matches_sources:
  "map source (List.map_filter id (map (get_matches J) rows)) = filter (resolved J) rows"
proof (induction rows)
  case Nil
  then show ?case by simp
next
  case (Cons r rows)
  show ?case
  proof (cases "get_matches J r")
    case None
    with Cons show ?thesis
      by (simp add: get_matches_None_iff[symmetric])
  next
    case (Some m)
    then have "resolved J r" using get_matches_None_iff[of J r] by simp
    with Some Cons show ?thesis
      by (simp add: get_matches_source)
  qed
qed

lemma matches_are_joins:
  "m \<in> set (List.map_filter id (map (get_matches J) rows)) \<Longrightarrow>
     get_matches J (source m) = Some m"
  by (auto simp add: List.map_filter_def get_matches_source)

lemma matcher_result:
  assumes r: "get_all_matches update n ms rows = Some (Inr matched_rows, ms', n')"
  shows "\<exists>k. (\<forall>j<k. round_result update n ms j = Inr True)
             \<and> round_result update n ms k = Inr False \<and> n' = n + Suc k
             \<and> ms' = tables_after update n ms (Suc k)
             \<and> matched_rows
                 = List.map_filter id (map (get_matches (tables_after update n ms k)) rows)"
proof -
  from matcher_some_round[OF r] obtain k where
    k: "\<forall>j<k. round_result update n ms j = Inr True" "round_result update n ms k \<noteq> Inr True"
    by (elim exE conjE)
  show ?thesis
  proof (cases "round_result update n ms k")
    case (Inl e)
    from matcher_raises[OF k(1) Inl, of rows] r show ?thesis by simp
  next
    case (Inr b)
    with k(2) have f: "round_result update n ms k = Inr False" by simp
    from matcher_returns[OF k(1) f, of rows] r
    have "n' = n + Suc k" "ms' = tables_after update n ms (Suc k)"
      "matched_rows = List.map_filter id (map (get_matches (tables_after update n ms k)) rows)"
      by simp_all
    with k(1) f show ?thesis by (intro exI[of _ k] conjI)
  qed
qed

text \<open>
  C2, as the code has it. The matcher joins every row of the batch with the tables of the
  three mappers and then runs a round of updates of all three, after every join and also
  when every row found its keys. When the round reports a change it joins the whole batch
  again. It returns exactly when a round reports no change from any mapper: if the rounds
  before round \<open>k\<close> report a change and round \<open>k\<close> reports none, it returns after
  \<open>k + 1\<close> rounds; if it returns, there is such a round; and if every round reports a
  change it never returns. What it returns are the joins of exactly the rows whose three
  keys are found in the tables of the last join, in the order of the batch.
\<close>

theorem matcher_fixed_point:
  "((\<forall>j<k. round_result update n ms j = Inr True) \<and> round_result update n ms k = Inr False \<longrightarrow>
      get_all_matches update n ms rows
        = Some (Inr (List.map_filter id (map (get_matches (tables_after update n ms k)) rows)),
                tables_after update n ms (Suc k), n + Suc k))
   \<and> map source (List.map_filter id (map (get_matches J) rows)) = filter (resolved J) rows
   \<and> (\<forall>m \<in> set (List.map_filter id (map (get_matches J) rows)).
         get_matches J (source m) = Some m)
   \<and> (get_all_matches update n ms rows = Some (Inr matched_rows, ms', n') \<longrightarrow>
        (\<exists>k. (\<forall>j<k. round_result update n ms j = Inr True)
             \<and> round_result update n ms k = Inr False \<and> n' = n + Suc k))
   \<and> ((\<forall>k. round_result update n ms k = Inr True) \<longrightarrow>
        get_all_matches update n ms rows = None)"
proof (intro conjI impI ballI)
  assume "(\<forall>j<k. round_result update n ms j = Inr True) \<and> round_result update n ms k = Inr False"
  then show "get_all_matches update n ms rows
        = Some (Inr (List.map_filter id (map (get_matches (tables_after update n ms k)) rows)),
                tables_after update n ms (Suc k), n + Suc k)"
    using matcher_returns[of k update n ms rows] by simp
next
  show "map source (List.map_filter id (map (get_matches J) rows)) = filter (resolved J) rows"
    by (rule matches_sources)
next
  fix m assume "m \<in> set (List.map_filter id (map (get_matches J) rows))"
  then show "get_matches J (source m) = Some m" by (rule matches_are_joins)
next
  assume "get_all_matches update n ms rows = Some (Inr matched_rows, ms', n')"
  from matcher_result[OF this]
  show "\<exists>k. (\<forall>j<k. round_result update n ms j = Inr True)
             \<and> round_result update n ms k = Inr False \<and> n' = n + Suc k"
    by (elim exE conjE) (intro exI conjI)
next
  assume "\<forall>k. round_result update n ms k = Inr True"
  then show "get_all_matches update n ms rows = None" by (rule matcher_diverges)
qed

lemmas matcher_defs =
  round_result_def get_matches_def resolved_def example_tables_def example_update_quiet_def
  example_update_stop_def

theorem matcher_fixed_point_witness:
  "get_all_matches example_update_stop 0 example_tables
     [example_row, example_row\<lparr> JourneyPatternPointGid := ''P2'' \<rparr>,
      example_row\<lparr> JourneyPatternPointGid := ''P9'' \<rparr>]
     = Some (Inr [example_matched example_row,
                  (example_matched (example_row\<lparr> JourneyPatternPointGid := ''P2'' \<rparr>))
                    \<lparr> stop := \<lparr> JoreStopId = ''1040101'' \<rparr> \<rparr>],
             example_tables
               \<lparr> stop_mapper := (stop_mapper example_tables)
                    (''P2'' \<mapsto> \<lparr> JoreStopId = ''1040101'' \<rparr>) \<rparr>, 2)
   \<and> round_result example_update_stop 0 example_tables 0 = Inr True
   \<and> round_result example_update_stop 0 example_tables 1 = Inr False"
  using matcher_fixed_point [of 1 example_update_stop 0 example_tables
     "[example_row, example_row\<lparr> JourneyPatternPointGid := ''P2'' \<rparr>,
      example_row\<lparr> JourneyPatternPointGid := ''P9'' \<rparr>]"]
  by (simp add: matcher_defs example_defs Let_def)

text \<open>
  The round of updates does not wait for a row that misses a key: with tables in which
  the only row of the batch finds its three keys, and a first round that reports a
  change, the matcher runs two rounds.
\<close>

theorem refresh_without_miss_counterexample:
  "resolved example_tables example_row
   \<and> get_all_matches example_update_quiet 0 example_tables [example_row]
       = Some (Inr [example_matched example_row], example_tables, 2)"
  using matcher_returns [of 1 example_update_quiet 0 example_tables "[example_row]"]
  by (simp add: matcher_defs example_defs Let_def)

section \<open>The poll cycle\<close>

lemma fold_max_Max: "fold max (map f rs) (f r) = Max (f ` set (r # rs))"
  using Max.set_eq_fold[of "f r" "map f rs"] by simp


lemma poll_result:
  assumes p: "poll cfg env cycle st = Some (Inr (st', sent))"
    and ne: "query_from_roi env cycle (format_datetime_for_sql (modified_utc_dt st)) \<noteq> []"
  shows "\<exists>k. (\<forall>j<k. round_result (mapper_update env) (rounds st) (tables st) j = Inr True)
     \<and> round_result (mapper_update env) (rounds st) (tables st) k = Inr False
     \<and> rounds st' = rounds st + Suc k
     \<and> tables st' = tables_after (mapper_update env) (rounds st) (tables st) (Suc k)
     \<and> modified_utc_dt st'
         = Max (LastModifiedUTCDateTime
                 ` set (query_from_roi env cycle (format_datetime_for_sql (modified_utc_dt st))))
     \<and> sent =
         [fst (event_processor cfg env
                 (List.map_filter id
                    (map (get_matches (tables_after (mapper_update env) (rounds st) (tables st) k))
                       (query_from_roi env cycle (format_datetime_for_sql (modified_utc_dt st)))))
                 (create_timestamp (utcnow env cycle)) (event_cache st)),
          fst (prediction_processor cfg env
                 (List.map_filter id
                    (map (get_matches (tables_after (mapper_update env) (rounds st) (tables st) k))
                       (query_from_roi env cycle (format_datetime_for_sql (modified_utc_dt st)))))
                 (create_timestamp (utcnow env cycle)) (prediction_cache st))]"
proof -
  let ?rows = "query_from_roi env cycle (format_datetime_for_sql (modified_utc_dt st))"
  from ne obtain r rs where rows: "?rows = r # rs" by (cases ?rows) auto
  from p rows obtain M ms' n' where
    g: "get_all_matches (mapper_update env) (rounds st) (tables st) ?rows = Some (Inr M, ms', n')"
    by (auto simp add: poll_def Let_def split: option.splits sum.splits prod.splits)
  from matcher_result[OF g] obtain k where
    k: "\<forall>j<k. round_result (mapper_update env) (rounds st) (tables st) j = Inr True"
       "round_result (mapper_update env) (rounds st) (tables st) k = Inr False"
       "n' = rounds st + Suc k"
       "ms' = tables_after (mapper_update env) (rounds st) (tables st) (Suc k)"
       "M = List.map_filter id
              (map (get_matches (tables_after (mapper_update env) (rounds st) (tables st) k)) ?rows)"
    by (elim exE conjE)
  have mx: "fold max (map LastModifiedUTCDateTime rs) (LastModifiedUTCDateTime r)
      = Max (LastModifiedUTCDateTime ` set ?rows)"
    unfolding rows by (rule fold_max_Max)
  from p have "st' = \<lparr> modified_utc_dt = Max (LastModifiedUTCDateTime ` set ?rows),
                 tables = ms', rounds = n',
                 event_cache = snd (event_processor cfg env M
                                 (create_timestamp (utcnow env cycle)) (event_cache st)),
                 prediction_cache = snd (prediction_processor cfg env M
                                 (create_timestamp (utcnow env cycle)) (prediction_cache st)) \<rparr>
      \<and> sent = [fst (event_processor cfg env M
                                 (create_timestamp (utcnow env cycle)) (event_cache st)),
                fst (prediction_processor cfg env M
                                 (create_timestamp (utcnow env cycle)) (prediction_cache st))]"
    unfolding mx[symmetric]
    by (simp add: poll_def g[unfolded rows] rows Let_def)
  with k show ?thesis
    by (intro exI[of _ k]) simp
qed






lemma get_all_matches_no_change:
  "update_mappers (snd (update n ms)) = Inr False \<Longrightarrow>
     get_all_matches update n ms rows
       = Some (Inr (List.map_filter id (map (get_matches ms) rows)), fst (update n ms), Suc n)"
  using matcher_returns[of 0 update n ms rows] by (simp add: round_result_0)

lemma replicate_numeral: "replicate (numeral k) x = x # replicate (pred_numeral k) x"
  by (simp add: numeral_eq_Suc)

lemma map_filter_remove_unresolved:
  "get_matches J r = None \<Longrightarrow>
     List.map_filter id (map (get_matches J) (filter (\<lambda>x. x \<noteq> r) rows))
       = List.map_filter id (map (get_matches J) rows)"
  by (induction rows) (auto simp add: List.map_filter_def)


lemmas poll_example_defs =
  example_config_def example_env_def example_state_def example_unresolved_row_def
  initial_state_def


lemmas processor_defs =
  event_processor_def prediction_processor_def process_def event_serializer_def
  prediction_serializer_def arrange_by_key_def arrange_event_def arrange_prediction_def





text \<open>
  C6. Let a cycle return, with a row of its batch for which the stop, the journey or the
  offset is not found in the tables of the last join of the matcher. Then no match has
  that row as its source; the matches, and so what the two processors put on the queue,
  are those of the batch without the row; and the new timestamp is the greatest
  last-modified time of the whole batch, so it is not before the time of that row.
\<close>

theorem unresolved_row_dropped_but_counted:
  "poll cfg env cycle st = Some (Inr (st', sent)) \<longrightarrow>
   (let rows = query_from_roi env cycle (format_datetime_for_sql (modified_utc_dt st));
        J = tables_after (mapper_update env) (rounds st) (tables st)
              (rounds st' - Suc (rounds st));
        ts = create_timestamp (utcnow env cycle);
        M = List.map_filter id (map (get_matches J) rows)
    in r \<in> set rows \<and> \<not> resolved J r \<longrightarrow>
         r \<notin> source ` set M
       \<and> List.map_filter id (map (get_matches J) (filter (\<lambda>x. x \<noteq> r) rows)) = M
       \<and> sent = [fst (event_processor cfg env M ts (event_cache st)),
                 fst (prediction_processor cfg env M ts (prediction_cache st))]
       \<and> modified_utc_dt st' = Max (LastModifiedUTCDateTime ` set rows)
       \<and> LastModifiedUTCDateTime r \<le> modified_utc_dt st')"
proof (intro impI)
  assume p: "poll cfg env cycle st = Some (Inr (st', sent))"
  let ?rows = "query_from_roi env cycle (format_datetime_for_sql (modified_utc_dt st))"
  let ?J = "tables_after (mapper_update env) (rounds st) (tables st)
              (rounds st' - Suc (rounds st))"
  let ?M = "List.map_filter id (map (get_matches ?J) ?rows)"
  have "r \<notin> source ` set ?M
       \<and> List.map_filter id (map (get_matches ?J) (filter (\<lambda>x. x \<noteq> r) ?rows)) = ?M
       \<and> sent = [fst (event_processor cfg env ?M (create_timestamp (utcnow env cycle))
                        (event_cache st)),
                 fst (prediction_processor cfg env ?M (create_timestamp (utcnow env cycle))
                        (prediction_cache st))]
       \<and> modified_utc_dt st' = Max (LastModifiedUTCDateTime ` set ?rows)
       \<and> LastModifiedUTCDateTime r \<le> modified_utc_dt st'"
    if r: "r \<in> set ?rows" and u: "\<not> resolved ?J r"
  proof -
    from r have ne: "?rows \<noteq> []" by auto
    from poll_result[OF p ne] obtain k where
      k: "rounds st' = rounds st + Suc k"
         "modified_utc_dt st' = Max (LastModifiedUTCDateTime ` set ?rows)"
         "sent =
           [fst (event_processor cfg env
                 (List.map_filter id
                    (map (get_matches (tables_after (mapper_update env) (rounds st) (tables st) k))
                       ?rows))
                 (create_timestamp (utcnow env cycle)) (event_cache st)),
            fst (prediction_processor cfg env
                 (List.map_filter id
                    (map (get_matches (tables_after (mapper_update env) (rounds st) (tables st) k))
                       ?rows))
                 (create_timestamp (utcnow env cycle)) (prediction_cache st))]"
      by (elim exE conjE)
    from k(1) have kk: "rounds st' - Suc (rounds st) = k" by simp
    from u have n: "get_matches ?J r = None" by (simp add: get_matches_None_iff)
    have "map source ?M = filter (resolved ?J) ?rows" by (rule matches_sources)
    then have "source ` set ?M = {x \<in> set ?rows. resolved ?J x}"
      by (metis set_map set_filter)
    with u have a: "r \<notin> source ` set ?M" by simp
    have b: "List.map_filter id (map (get_matches ?J) (filter (\<lambda>x. x \<noteq> r) ?rows)) = ?M"
      using n by (rule map_filter_remove_unresolved)
    have "LastModifiedUTCDateTime r \<le> Max (LastModifiedUTCDateTime ` set ?rows)"
      using r by (intro Max_ge) simp_all
    with a b k(2) k(3) show ?thesis unfolding kk by simp
  qed
  then show "let rows = ?rows; J = ?J; ts = create_timestamp (utcnow env cycle);
        M = List.map_filter id (map (get_matches J) rows)
    in r \<in> set rows \<and> \<not> resolved J r \<longrightarrow>
         r \<notin> source ` set M
       \<and> List.map_filter id (map (get_matches J) (filter (\<lambda>x. x \<noteq> r) rows)) = M
       \<and> sent = [fst (event_processor cfg env M ts (event_cache st)),
                 fst (prediction_processor cfg env M ts (prediction_cache st))]
       \<and> modified_utc_dt st' = Max (LastModifiedUTCDateTime ` set rows)
       \<and> LastModifiedUTCDateTime r \<le> modified_utc_dt st'"
    by (simp add: Let_def)
qed

theorem unresolved_row_dropped_but_counted_witness:
  "poll example_config example_env 0 example_state
     = Some (Inr (\<lparr> modified_utc_dt = datetime_of 2023 5 1 5 14 2 0,
                     tables = example_tables, rounds = 1,
                     event_cache = [extract_departure_id_and_event (example_matched example_row)],
                     prediction_cache =
                       [extract_departure_id_and_prediction (example_matched example_row)] \<rparr>,
                  [Inr [(''event/1130101'', [])], Inr [(''prediction/1130101'', [])]]))
   \<and> \<not> resolved example_tables example_unresolved_row
   \<and> example_unresolved_row \<notin> source ` set [example_matched example_row]
   \<and> LastModifiedUTCDateTime example_row < LastModifiedUTCDateTime example_unresolved_row
   \<and> LastModifiedUTCDateTime example_unresolved_row = datetime_of 2023 5 1 5 14 2 0"
proof -
  have p: "poll example_config example_env 0 example_state
     = Some (Inr (\<lparr> modified_utc_dt = datetime_of 2023 5 1 5 14 2 0,
                     tables = example_tables, rounds = 1,
                     event_cache = [extract_departure_id_and_event (example_matched example_row)],
                     prediction_cache =
                       [extract_departure_id_and_prediction (example_matched example_row)] \<rparr>,
                  [Inr [(''event/1130101'', [])], Inr [(''prediction/1130101'', [])]]))"
    by (simp add: poll_def get_all_matches_no_change poll_example_defs processor_defs
        filter_defs checker_defs matcher_defs example_defs calendar_defs
        Let_def)
  show ?thesis
    using unresolved_row_dropped_but_counted [of example_config example_env 0 example_state
        "\<lparr> modified_utc_dt = datetime_of 2023 5 1 5 14 2 0,
                     tables = example_tables, rounds = 1,
                     event_cache = [extract_departure_id_and_event (example_matched example_row)],
                     prediction_cache =
                       [extract_departure_id_and_prediction (example_matched example_row)] \<rparr>"
        "[Inr [(''event/1130101'', [])], Inr [(''prediction/1130101'', [])]]"
        example_unresolved_row] p
    by (simp add: poll_example_defs matcher_defs example_defs calendar_defs Let_def)
qed

end
